theory Spec2Isabelle
  imports Main "HOL-Library.Word"
begin

section \<open>Go values\<close>

text \<open>
  A non-nil Go \<open>error\<close> is represented by its message; a possibly nil one is an
  \<open>error option\<close>, and a Go result pair \<open>(T, error)\<close> is a pair \<open>'a \<times> error option\<close>.
  A run-time panic is not an error value: it ends the goroutine (and, unrecovered, the
  plugin), so a function that can panic returns an \<open>outcome\<close>.
\<close>

type_synonym error = string

datatype panic = NilPointerDereference | IndexOutOfRange | SliceBoundsOutOfRange

datatype 'a outcome = Panic panic | Return 'a

subsection \<open>Strings and formatting\<close>

text \<open>
  Strings are byte lists. \<open>Split\<close> is \<open>strings.Split\<close> (and \<open>bytes.Split\<close>) for a
  separator of one byte: a string with \<open>n\<close> separators gives \<open>n + 1\<close> segments, the empty
  string gives one empty segment. \<open>cut\<close> returns the first segment apart from the others,
  so that the result is never the empty list. \<open>Join\<close> is \<open>strings.Join\<close> with the empty
  separator.
\<close>

fun cut :: "char \<Rightarrow> string \<Rightarrow> string \<times> string list" where
  "cut sep [] = ([], [])"
| "cut sep (c # cs) =
     (case cut sep cs of (seg, segs) \<Rightarrow> if c = sep then ([], seg # segs) else (c # seg, segs))"

definition Split :: "string \<Rightarrow> char \<Rightarrow> string list" where
  "Split s sep = (case cut sep s of (seg, segs) \<Rightarrow> seg # segs)"

definition Join :: "string list \<Rightarrow> string" where
  "Join a = concat a"

text \<open>
  \<open>strings.ToUpper\<close>, as far as the commands use it: on a string of at most one byte
  (\<open>bpslice[1][:1]\<close>). The letters \<open>a\<close> to \<open>z\<close> become \<open>A\<close> to \<open>Z\<close> and every other
  ASCII byte stays. A byte from \<open>0x80\<close> on, the first byte of a longer UTF-8 sequence cut
  off from the rest, is not valid UTF-8 on its own: \<open>strings.ToUpper\<close> maps it through
  \<open>strings.Map\<close>, which writes the replacement character U+FFFD (\<open>RuneError\<close>, three
  bytes) in its place. (Toolchains of the time the code was written returned such a byte
  as it was; the results on names below are stated for ASCII, where all agree.)
\<close>

definition upper_case :: "char \<rightharpoonup> char" where
  "upper_case = map_of (zip ''abcdefghijklmnopqrstuvwxyz'' ''ABCDEFGHIJKLMNOPQRSTUVWXYZ'')"

definition RuneError :: string where
  "RuneError = [CHR 0xEF, CHR 0xBF, CHR 0xBD]"

definition ToUpper :: "string \<Rightarrow> string" where
  "ToUpper s =
     concat (map (\<lambda>c. case upper_case c of
                         Some u \<Rightarrow> [u]
                       | None \<Rightarrow> if (of_char c :: nat) < 128 then [c] else RuneError) s)"

text \<open>The verbs of \<open>fmt.Sprintf\<close> the commands use: \<open>%d\<close> on an \<open>int\<close>, \<open>%#x\<close> on a \<open>uint64\<close>.\<close>

definition digit :: "nat \<Rightarrow> char" where
  "digit n = ''0123456789abcdef'' ! n"

fun showNat :: "nat \<Rightarrow> nat \<Rightarrow> string" where
  "showNat base n =
     (if base < 2 \<or> n < base then [digit n] else showNat base (n div base) @ [digit (n mod base)])"

declare showNat.simps [simp del]

definition showInt :: "int \<Rightarrow> string" where
  "showInt i = (if i < 0 then CHR ''-'' # showNat 10 (nat (- i)) else showNat 10 (nat i))"

definition showHex :: "64 word \<Rightarrow> string" where
  "showHex w = ''0x'' @ showNat 16 (unat w)"

definition newline :: char where
  "newline = CHR 0x0A"

definition tab :: char where
  "tab = CHR 0x09"

section \<open>The data of a debugging session\<close>

text \<open>
  \<open>delveapi.Breakpoint\<close>, with the fields the commands read or write. \<open>ID\<close> and \<open>Line\<close>
  are Go \<open>int\<close>s that are only compared and printed; \<open>Addr\<close> and the hit counters are
  \<open>uint64\<close>; \<open>HitCount\<close> is a \<open>map[string]uint64\<close> keyed by goroutine id.
\<close>

record Breakpoint =
  ID :: int
  Name :: string
  Addr :: "64 word"
  File :: string
  Line :: int
  FunctionName :: string
  Tracepoint :: bool
  HitCount :: "string \<rightharpoonup> 64 word"
  TotalHitCount :: "64 word"

text \<open>The zero value \<open>delveapi.Breakpoint{}\<close>, from which the requests are built.\<close>

definition Breakpoint_zero :: Breakpoint where
  "Breakpoint_zero =
     \<lparr>ID = 0, Name = [], Addr = 0, File = [], Line = 0, FunctionName = [],
      Tracepoint = False, HitCount = Map.empty, TotalHitCount = 0\<rparr>"

text \<open>\<open>delve.breakpoints\<close>, a \<open>map[int]*delveapi.Breakpoint\<close>.\<close>

type_synonym registry = "int \<rightharpoonup> Breakpoint"

text \<open>
  \<open>delveapi.Thread\<close> is only handed to \<open>parseThread\<close>; \<open>delveapi.DebuggerState\<close> is
  what \<open>Continue\<close> and \<open>Next\<close> deliver.
\<close>

datatype Thread =
  Thread (thread_ID: int) (PC: "64 word") (thread_File: string) (thread_Line: int)
    (GoroutineID: int) (Function_Name: string)

record DebuggerState =
  CurrentThread :: "Thread option"
  Exited :: bool
  ExitStatus :: int

text \<open>
  \<open>bufferInfo\<close>: one of the output buffers (\<open>breaks\<close>, \<open>logs\<close>, ...), with its window
  and the line count the last write returned.
\<close>

record bufferInfo =
  buffer :: int
  window :: int
  linecount :: int

text \<open>
  The session: the fields of the global \<open>delve\<close> client that the commands below use, and the
  global \<open>breaks\<close> buffer. The model starts where \<open>delve\<close> is set (after
  \<open>DlvStartClient\<close>); \<open>has_buffers\<close> is \<open>delve.buffers != nil\<close>.
\<close>

record session =
  procPid :: int
  breakpoints :: registry
  has_buffers :: bool
  breaks :: bufferInfo

text \<open>
  The editor, as the answers of the calls made on \<open>v\<close>. \<open>Echomsg\<close> stands for
  \<open>nvim.Echomsg(v, msg)\<close>, whose source is not among the files: it shows the message and
  returns the error of doing so.
\<close>

record vim =
  BufferLineCount :: "int \<Rightarrow> int \<times> error option"
  BufferLines :: "int \<Rightarrow> string list \<times> error option"
  SetBufferLines :: "int \<Rightarrow> int \<Rightarrow> string list \<Rightarrow> error option"
  SetWindowCursor :: "int \<Rightarrow> int \<times> int \<Rightarrow> error option"
  Echomsg :: "string \<Rightarrow> error option"

section \<open>Writing to a buffer\<close>

text \<open>
  \<open>printBuffer\<close>, whose flag \<open>append\<close> is \<open>appnd\<close> here. The two
  \<open>SetBufferOption\<close> calls around the write drop their results and are left out.
  \<open>buf[0]\<close> panics on an empty answer of \<open>BufferLines\<close>.
\<close>

definition printBuffer :: "vim \<Rightarrow> int \<Rightarrow> bool \<Rightarrow> string list \<Rightarrow> (int \<times> error option) outcome" where
  "printBuffer v b appnd data =
     (case (if appnd then BufferLineCount v b else (0, None)) of
        (n, Some err) \<Rightarrow> Return (0, Some err)
      | (start, None) \<Rightarrow>
          if start = 1 then
            (case BufferLines v b of
               (buf, Some err) \<Rightarrow> Return (0, Some err)
             | (buf, None) \<Rightarrow>
                 (case buf of
                    [] \<Rightarrow> Panic IndexOutOfRange
                  | line0 # others \<Rightarrow>
                      if length line0 = 0
                      then Return (0 + int (length data), SetBufferLines v b 0 data)
                      else Return (start + int (length data), SetBufferLines v b start data)))
          else Return (start + int (length data), SetBufferLines v b start data))"

text \<open>
  The start position in words, for a buffer that holds \<open>lines\<close>: the line count when
  appending, except that a single empty line counts as no line; 0 when replacing.
\<close>

definition start_position :: "bool \<Rightarrow> string list \<Rightarrow> int" where
  "start_position appnd lines =
     (if appnd then (if lines = [[]] then 0 else int (length lines)) else 0)"

section \<open>Breakpoints\<close>

subsection \<open>Naming a breakpoint\<close>

text \<open>
  The three lines that \<open>delveBreakpoint\<close> and \<open>parseArgs\<close> share:
  \<^verbatim>\<open>bpslice := strings.Split(args[0], ".")\<close>,
  \<^verbatim>\<open>bpslice[1] = fmt.Sprintf("%s%s", strings.ToUpper(bpslice[1][:1]), bpslice[1][1:])\<close>,
  \<^verbatim>\<open>bpName = strings.Join(bpslice, "")\<close>.
  \<open>bpslice[1]\<close> panics when the symbol has no dot, \<open>bpslice[1][:1]\<close> when nothing
  stands between the first dot and the next (or the end).
\<close>

definition derive_name :: "string \<Rightarrow> string outcome" where
  "derive_name symbol =
     (case Split symbol CHR ''.'' of
        pkg # [] # others \<Rightarrow> Panic SliceBoundsOutOfRange
      | pkg # (c # cs) # others \<Rightarrow> Return (Join (pkg # (ToUpper [c] @ cs) # others))
      | _ \<Rightarrow> Panic IndexOutOfRange)"

text \<open>
  The \<open>switch len(args)\<close> of \<open>delveBreakpoint\<close>: \<open>Inl msg\<close> is the return of
  \<open>nvim.EchohlErr(v, "Delve", msg)\<close>, \<open>Inr name\<close> the value of \<open>bpName\<close> with which the
  command goes on.
\<close>

definition delveBreakpoint_bpName :: "string list \<Rightarrow> (string + string) outcome" where
  "delveBreakpoint_bpName args =
     (case args of
        [] \<Rightarrow> Return (Inl ''Invalid argument'')
      | [symbol] \<Rightarrow> (case derive_name symbol of Panic p \<Rightarrow> Panic p | Return name \<Rightarrow> Return (Inr name))
      | [symbol, name] \<Rightarrow> Return (Inr name)
      | _ \<Rightarrow> Return (Inl ''Too many arguments''))"

text \<open>
  \<open>parseArgs\<close> of the newer client: \<open>cursor\<close> is the answer of \<open>v.WindowCursor(d.cw)\<close>,
  \<open>file\<close> is \<open>eval.File\<close>. The result is the Go pair \<open>(*delveapi.Breakpoint, error)\<close>.
\<close>

definition parseArgs :: "(int \<times> int) \<times> error option \<Rightarrow> string \<Rightarrow> string list \<Rightarrow>
    (Breakpoint option \<times> error option) outcome" where
  "parseArgs cursor file args =
     (case args of
        [] \<Rightarrow>
          (case cursor of
             (pos, Some err) \<Rightarrow> Return (None, Some err)
           | (pos, None) \<Rightarrow> Return (Some (Breakpoint_zero\<lparr>File := file, Line := fst pos\<rparr>), None))
      | [symbol] \<Rightarrow>
          (case derive_name symbol of
             Panic p \<Rightarrow> Panic p
           | Return name \<Rightarrow>
               Return (Some (Breakpoint_zero\<lparr>Name := name, FunctionName := symbol\<rparr>), None))
      | _ \<Rightarrow> Return (None, Some ''Delve: Too many arguments''))"

subsection \<open>Listing breakpoints in the order of their identifiers\<close>

text \<open>
  \<open>ByID\<close> implements \<open>sort.Interface\<close> with \<open>Less(i, j) = a[i].ID < a[j].ID\<close>.
  \<open>sort.Sort\<close> is the standard library's: it permutes the slice until no element is
  \<open>Less\<close> than one before it. On a short slice (up to 12 elements) it is the library's
  \<open>insertionSort\<close>: from left to right, each element is swapped towards the front while
  it is \<open>Less\<close> than the element before it, so that elements of the same identifier keep
  their order. \<open>ByID_insert b front\<close> is one such pass, for the element \<open>b\<close> that follows
  the sorted part \<open>front\<close>: it comes to stand in front of the elements it is \<open>Less\<close> than.
  \<open>sort_ByID\<close> is the whole sort. Where identifiers are distinct, as the server's are,
  every sort gives this list, whatever the length of the slice.
\<close>

definition ByID_Less :: "Breakpoint \<Rightarrow> Breakpoint \<Rightarrow> bool" where
  "ByID_Less a b = (ID a < ID b)"

fun ByID_insert :: "Breakpoint \<Rightarrow> Breakpoint list \<Rightarrow> Breakpoint list" where
  "ByID_insert b [] = [b]"
| "ByID_insert b (c # cs) = (if ByID_Less b c then b # c # cs else c # ByID_insert b cs)"

fun insertionSort :: "Breakpoint list \<Rightarrow> Breakpoint list \<Rightarrow> Breakpoint list" where
  "insertionSort front [] = front"
| "insertionSort front (b # bs) = insertionSort (ByID_insert b front) bs"

definition sort_ByID :: "Breakpoint list \<Rightarrow> Breakpoint list" where
  "sort_ByID a = insertionSort [] a"

subsection \<open>Reconciling the hit counts\<close>

text \<open>
  The loop of \<open>delveContinue\<close> and \<open>delveNext\<close> over the sorted answer of
  \<open>ListBreakpoints\<close>:
  \<^verbatim>\<open>if delve.breakpoints[bp.ID].TotalHitCount != bp.TotalHitCount {\<close>
  \<^verbatim>\<open>  delve.breakpoints[bp.ID].TotalHitCount = bp.TotalHitCount\<close>
  \<^verbatim>\<open>  delve.breakpoints[bp.ID].HitCount = bp.HitCount\<close>
  \<^verbatim>\<open>} else { bp = delve.breakpoints[bp.ID] }\<close>
  followed by the formatting of \<open>bp\<close>. An identifier that is not a key of the map reads as
  a nil pointer, and the selection of \<open>TotalHitCount\<close> panics. The result is the registry
  and the descriptors that were formatted, in order.
\<close>

fun reconcile :: "Breakpoint list \<Rightarrow> registry \<Rightarrow> (registry \<times> Breakpoint list) outcome" where
  "reconcile [] reg = Return (reg, [])"
| "reconcile (bp # bps) reg =
     (case reg (ID bp) of
        None \<Rightarrow> Panic NilPointerDereference
      | Some cached \<Rightarrow>
          if TotalHitCount cached \<noteq> TotalHitCount bp then
            (case reconcile bps
                    (reg(ID bp \<mapsto> cached\<lparr>TotalHitCount := TotalHitCount bp, HitCount := HitCount bp\<rparr>)) of
               Panic p \<Rightarrow> Panic p
             | Return (reg', shown) \<Rightarrow> Return (reg', bp # shown))
          else
            (case reconcile bps reg of
               Panic p \<Rightarrow> Panic p
             | Return (reg', shown) \<Rightarrow> Return (reg', cached # shown)))"

text \<open>
  For the proofs: what one answer does to the cached descriptor of its identifier
  (\<open>refresh\<close>), what a list of answers for the same identifier does (\<open>absorb\<close>), and a
  descriptor without its hit counts (\<open>frame\<close>).
\<close>

definition refresh :: "Breakpoint \<Rightarrow> Breakpoint \<Rightarrow> Breakpoint" where
  "refresh cached bp =
     (if TotalHitCount cached \<noteq> TotalHitCount bp
      then cached\<lparr>TotalHitCount := TotalHitCount bp, HitCount := HitCount bp\<rparr>
      else cached)"

fun absorb :: "Breakpoint list \<Rightarrow> Breakpoint \<Rightarrow> Breakpoint" where
  "absorb [] cached = cached"
| "absorb (bp # bps) cached = absorb bps (refresh cached bp)"

definition frame :: "Breakpoint \<Rightarrow> Breakpoint" where
  "frame c = c\<lparr>TotalHitCount := 0, HitCount := Map.empty\<rparr>"

subsection \<open>Registering breakpoints\<close>

text \<open>
  The two places that store into \<open>delve.breakpoints\<close>. \<open>delveStartClient\<close> makes the
  map and stores the answer of \<open>client.GetBreakpoint(-1)\<close>, the server's breakpoint for
  unrecovered panics, under the key \<open>-1\<close>; \<open>Inl err\<close> is its return through
  \<open>nvim.EchohlErr\<close>, and a nil answer panics where \<open>panic.ID\<close> is formatted.
  \<open>delveBreakpoint\<close> stores the answer of \<open>client.CreateBreakpoint\<close> under its own
  identifier.
\<close>

definition delveStartClient_breakpoints :: "Breakpoint option \<times> error option \<Rightarrow> (error + registry) outcome" where
  "delveStartClient_breakpoints reply =
     (case reply of
        (answer, Some err) \<Rightarrow> Return (Inl err)
      | (answer, None) \<Rightarrow>
          (case answer of
             None \<Rightarrow> Panic NilPointerDereference
           | Some panic \<Rightarrow> Return (Inr [- 1 \<mapsto> panic])))"

definition delveBreakpoint_breakpoints :: "Breakpoint option \<times> error option \<Rightarrow> registry \<Rightarrow>
    (error + registry) outcome" where
  "delveBreakpoint_breakpoints reply reg =
     (case reply of
        (answer, Some err) \<Rightarrow> Return (Inl err)
      | (answer, None) \<Rightarrow>
          (case answer of
             None \<Rightarrow> Panic NilPointerDereference
           | Some newbp \<Rightarrow> Return (Inr (reg(ID newbp \<mapsto> newbp)))))"

section \<open>Continue and next\<close>

text \<open>The two messages: the exit notice and one entry of the breakpoint table.\<close>

definition Sprintf_exited :: "int \<Rightarrow> int \<Rightarrow> string" where
  "Sprintf_exited pid status =
     ''Process '' @ showInt pid @ '' has exited with status '' @ showInt status"

definition Sprintf_bp :: "Breakpoint \<Rightarrow> string" where
  "Sprintf_bp bp =
     ''Breakpoint '' @ showInt (ID bp) @ [newline, tab] @ ''PC='' @ showHex (Addr bp) @
     '' func='' @ FunctionName bp @ ''() File='' @ File bp @ '':'' @ showInt (Line bp) @
     '' ('' @ showInt (ID bp) @ '')'' @ [newline]"

text \<open>
  \<open>parseThread\<close> returns at once on a nil thread. On a thread it writes to the log,
  source and locals buffers and places signs; it does not write to \<open>delve.breakpoints\<close>
  or to \<open>breaks\<close>. That part is the parameter \<open>render\<close>, given by its outcome.
\<close>

definition parseThread :: "(Thread \<Rightarrow> error option outcome) \<Rightarrow> Thread option \<Rightarrow> error option outcome" where
  "parseThread render thread = (case thread of None \<Rightarrow> Return None | Some t \<Rightarrow> render t)"

text \<open>
  The part that \<open>delveContinue\<close> and \<open>delveNext\<close> share, from \<open>ListBreakpoints\<close> to the
  cursor of the breakpoint window. \<open>listing\<close> is the answer of \<open>ListBreakpoints\<close>.
  \<open>breaks.linecount\<close> is assigned before the error of \<open>printBuffer\<close> is looked at.
\<close>

definition show_breakpoints :: "vim \<Rightarrow> session \<Rightarrow> Breakpoint list \<times> error option \<Rightarrow>
    (error option \<times> session) outcome" where
  "show_breakpoints v s listing =
     (case listing of
        (breakpoint, Some err) \<Rightarrow> Return (Some err, s)
      | (breakpoint, None) \<Rightarrow>
          (case reconcile (sort_ByID breakpoint) (breakpoints s) of
             Panic p \<Rightarrow> Panic p
           | Return (reg', shown) \<Rightarrow>
               (case printBuffer v (buffer (breaks s)) False
                       (Split (concat (map Sprintf_bp shown)) newline) of
                  Panic p \<Rightarrow> Panic p
                | Return (n, Some err) \<Rightarrow>
                    Return (Some err, s\<lparr>breakpoints := reg', breaks := (breaks s)\<lparr>linecount := n\<rparr>\<rparr>)
                | Return (n, None) \<Rightarrow>
                    Return (SetWindowCursor v (window (breaks s)) (n, 0),
                            s\<lparr>breakpoints := reg', breaks := (breaks s)\<lparr>linecount := n\<rparr>\<rparr>))))"

text \<open>
  \<open>delveContinue\<close>: \<open>state\<close> is what the channel of \<open>client.Continue()\<close> delivered
  (\<open>None\<close> for a nil pointer). In \<open>state == nil || state.Exited\<close> the message is built from
  \<open>state.ExitStatus\<close>, which panics on a nil state.
\<close>

definition delveContinue :: "vim \<Rightarrow> (Thread \<Rightarrow> error option outcome) \<Rightarrow> session \<Rightarrow>
    DebuggerState option \<Rightarrow> Breakpoint list \<times> error option \<Rightarrow> (error option \<times> session) outcome" where
  "delveContinue v render s state listing =
     (case state of
        None \<Rightarrow> Panic NilPointerDereference
      | Some st \<Rightarrow>
          if Exited st then Return (Echomsg v (Sprintf_exited (procPid s) (ExitStatus st)), s)
          else
            (case parseThread render (CurrentThread st) of
               Panic p \<Rightarrow> Panic p
             | Return (Some err) \<Rightarrow> Return (Some err, s)
             | Return None \<Rightarrow> show_breakpoints v s listing))"

text \<open>\<open>delveNext\<close>: \<open>reply\<close> is the pair that \<open>client.Next()\<close> returned.\<close>

definition delveNext :: "vim \<Rightarrow> (Thread \<Rightarrow> error option outcome) \<Rightarrow> session \<Rightarrow>
    DebuggerState option \<times> error option \<Rightarrow> Breakpoint list \<times> error option \<Rightarrow>
    (error option \<times> session) outcome" where
  "delveNext v render s reply listing =
     (case reply of
        (state, Some err) \<Rightarrow> Return (Some err, s)
      | (state, None) \<Rightarrow>
          (case state of
             None \<Rightarrow> Panic NilPointerDereference
           | Some st \<Rightarrow>
               if Exited st then Return (Echomsg v (Sprintf_exited (procPid s) (ExitStatus st)), s)
               else
                 (case show_breakpoints v s listing of
                    Panic p \<Rightarrow> Panic p
                  | Return (Some err, s') \<Rightarrow> Return (Some err, s')
                  | Return (None, s') \<Rightarrow>
                      (case parseThread render (CurrentThread st) of
                         Panic p \<Rightarrow> Panic p
                       | Return r \<Rightarrow> Return (r, s')))))"

section \<open>Completion of function names\<close>

text \<open>
  \<open>delveFunctionList\<close> (commands/delve.go) and \<open>FunctionsCompletion\<close>
  (commands/delve/delve.go). The argument is what \<open>client.ListFunctions("main")\<close>
  returned.
\<close>

definition delveFunctionList :: "string list \<times> error option \<Rightarrow> string list \<times> error option" where
  "delveFunctionList reply =
     (case reply of
        (funcs, Some err) \<Rightarrow> ([], None)
      | (funcs, None) \<Rightarrow> (funcs, None))"

definition FunctionsCompletion :: "string list \<times> error option \<Rightarrow> string list \<times> error option" where
  "FunctionsCompletion reply =
     (case reply of
        (funcs, Some err) \<Rightarrow> ([], Some err)
      | (funcs, None) \<Rightarrow> (funcs, None))"

section \<open>Killing the server and detaching\<close>

text \<open>
  The global \<open>server\<close> is an \<open>*exec.Cmd\<close>: nil until \<open>DlvStartServer\<close> assigns it, and
  never reset. Its \<open>Process\<close> is nil until the command has been started. The operating
  system is a state \<open>'os\<close>; \<open>Kill p\<close> is \<open>(*os.Process).Kill\<close> on the process \<open>p\<close>, and
  calling it on a nil \<open>*os.Process\<close> dereferences the pointer. The log line after a
  successful kill is left out.
\<close>

record Cmd =
  Process :: "int option"

definition delveKill :: "(int \<Rightarrow> 'os \<Rightarrow> error option \<times> 'os) \<Rightarrow> Cmd option \<Rightarrow> 'os \<Rightarrow>
    (error option \<times> 'os) outcome" where
  "delveKill Kill server os =
     (case server of
        None \<Rightarrow> Return (None, os)
      | Some cmd \<Rightarrow>
          (case Process cmd of
             None \<Rightarrow> Panic NilPointerDereference
           | Some p \<Rightarrow>
               (case Kill p os of
                  (Some err, os') \<Rightarrow> Return (Some err, os')
                | (None, os') \<Rightarrow> Return (None, os'))))"

text \<open>
  \<open>delveDetach\<close>: \<open>wait\<close> is the answer of \<open>p.Wait()\<close> after switching the tab page,
  \<open>detach\<close> that of \<open>client.Detach(true)\<close>. The deferred \<open>delveKill()\<close> runs on every
  return; its result is dropped.
\<close>

definition delveDetach :: "(int \<Rightarrow> 'os \<Rightarrow> error option \<times> 'os) \<Rightarrow> Cmd option \<Rightarrow> 'os \<Rightarrow> session \<Rightarrow>
    error option \<Rightarrow> error option \<Rightarrow> (error option \<times> 'os) outcome" where
  "delveDetach Kill server os s wait detach =
     (let result =
        (if procPid s = 0 then None
         else if has_buffers s \<and> wait \<noteq> None then wait
         else detach)
      in case delveKill Kill server os of
           Panic p \<Rightarrow> Panic p
         | Return (killed, os') \<Rightarrow> Return (result, os'))"

section \<open>Example data\<close>

text \<open>
  A breakpoint at \<open>main.main\<close> as the server describes it, the server's own breakpoint for
  unrecovered panics (identifier \<open>-1\<close>), an editor whose calls all succeed on a fresh
  buffer, and a \<open>parseThread\<close> rendering that succeeds.
\<close>

definition bp_main :: Breakpoint where
  "bp_main =
     \<lparr>ID = 1, Name = ''mainMain'', Addr = 0x2053, File = ''/go/src/astdump/astdump.go'',
      Line = 19, FunctionName = ''main.main'', Tracepoint = True, HitCount = Map.empty,
      TotalHitCount = 0\<rparr>"

definition bp_panic :: Breakpoint where
  "bp_panic =
     \<lparr>ID = - 1, Name = ''unrecovered-panic'', Addr = 0x2a7c0,
      File = ''/usr/local/go/src/runtime/panic.go'', Line = 389,
      FunctionName = ''runtime.startpanic'', Tracepoint = False, HitCount = Map.empty,
      TotalHitCount = 0\<rparr>"

definition quiet_vim :: vim where
  "quiet_vim =
     \<lparr>BufferLineCount = (\<lambda>b. (1, None)), BufferLines = (\<lambda>b. ([[]], None)),
      SetBufferLines = (\<lambda>b start data. None), SetWindowCursor = (\<lambda>w pos. None),
      Echomsg = (\<lambda>msg. None)\<rparr>"

definition quiet_render :: "Thread \<Rightarrow> error option outcome" where
  "quiet_render t = Return None"

definition session0 :: session where
  "session0 =
     \<lparr>procPid = 4711, breakpoints = [- 1 \<mapsto> bp_panic, 1 \<mapsto> bp_main], has_buffers = True,
      breaks = \<lparr>buffer = 4, window = 1003, linecount = 2\<rparr>\<rparr>"

text \<open>
  An operating system for the examples: the set of the processes that run. Killing one
  that runs ends it; killing one that has finished is an error.
\<close>

definition example_Kill :: "int \<Rightarrow> int set \<Rightarrow> error option \<times> int set" where
  "example_Kill p running =
     (if p \<in> running then (None, running - {p})
      else (Some ''os: process already finished'', running))"

section \<open>Properties of the reconciliation\<close>

lemma refresh_total [simp]: "TotalHitCount (refresh c bp) = TotalHitCount bp"
  by (simp add: refresh_def)

lemma refresh_same: "TotalHitCount c = TotalHitCount bp \<Longrightarrow> refresh c bp = c"
  by (simp add: refresh_def)

lemma refresh_frame [simp]: "frame (refresh c bp) = frame c"
  by (simp add: refresh_def frame_def)

lemma refresh_ID [simp]: "ID (refresh c bp) = ID c"
  by (simp add: refresh_def)

lemma refresh_cong:
  assumes "frame c1 = frame c2" and "TotalHitCount c1 = TotalHitCount c2"
  shows "refresh c1 bp = refresh c2 bp \<or> (refresh c1 bp = c1 \<and> refresh c2 bp = c2)"
proof (cases "TotalHitCount c1 = TotalHitCount bp")
  case True
  with assms show ?thesis by (simp add: refresh_same)
next
  case False
  have "c1\<lparr>TotalHitCount := t, HitCount := h\<rparr> = c2\<lparr>TotalHitCount := t, HitCount := h\<rparr>" for t h
    using assms(1) by (cases c1, cases c2) (simp add: frame_def)
  with False assms(2) show ?thesis by (simp add: refresh_def)
qed

lemma absorb_frame [simp]: "frame (absorb bps c) = frame c"
  by (induction bps arbitrary: c) simp_all

lemma absorb_ID [simp]: "ID (absorb bps c) = ID c"
  by (induction bps arbitrary: c) simp_all

text \<open>
  Two cached descriptors that differ at most in their per-goroutine counts either end up
  equal after a list of answers, or none of the answers touches either of them.
\<close>

lemma absorb_fixed_or_merged:
  "frame c1 = frame c2 \<Longrightarrow> TotalHitCount c1 = TotalHitCount c2 \<Longrightarrow>
   absorb bps c1 = absorb bps c2 \<or> (absorb bps c1 = c1 \<and> absorb bps c2 = c2)"
proof (induction bps arbitrary: c1 c2)
  case Nil
  then show ?case by simp
next
  case (Cons bp bps)
  from refresh_cong [OF Cons.prems, of bp] show ?case
  proof
    assume "refresh c1 bp = refresh c2 bp"
    then show ?thesis by simp
  next
    assume "refresh c1 bp = c1 \<and> refresh c2 bp = c2"
    with Cons.IH [OF Cons.prems] show ?thesis by simp
  qed
qed

lemma absorb_idem: "absorb bps (absorb bps c) = absorb bps c"
proof (cases bps)
  case Nil
  then show ?thesis by simp
next
  case (Cons bp rest)
  let ?x1 = "refresh c bp"
  let ?r = "absorb rest ?x1"
  let ?x2 = "refresh ?r bp"
  have "frame ?x2 = frame ?x1" by simp
  moreover have "TotalHitCount ?x2 = TotalHitCount ?x1" by simp
  ultimately have "absorb rest ?x2 = absorb rest ?x1 \<or> (absorb rest ?x2 = ?x2 \<and> absorb rest ?x1 = ?x1)"
    by (rule absorb_fixed_or_merged)
  then have "absorb rest ?x2 = ?r"
  proof
    assume "absorb rest ?x2 = absorb rest ?x1"
    then show ?thesis .
  next
    assume h: "absorb rest ?x2 = ?x2 \<and> absorb rest ?x1 = ?x1"
    then have "?x2 = refresh ?x1 bp" by simp
    also have "\<dots> = ?x1" by (simp add: refresh_same)
    finally show ?thesis using h by simp
  qed
  with Cons show ?thesis by simp
qed

text \<open>One turn of the loop, for a registered identifier.\<close>

lemma reconcile_Cons:
  assumes "reg (ID bp) = Some cached"
  shows "reconcile (bp # bps) reg =
     (case reconcile bps (reg(ID bp \<mapsto> refresh cached bp)) of
        Panic p \<Rightarrow> Panic p
      | Return (reg', shown) \<Rightarrow>
          Return (reg', (if TotalHitCount cached \<noteq> TotalHitCount bp then bp else cached) # shown))"
proof -
  have "TotalHitCount cached = TotalHitCount bp \<Longrightarrow> reg(ID bp \<mapsto> refresh cached bp) = reg"
    using assms by (simp add: refresh_same fun_upd_idem)
  then show ?thesis using assms by (simp add: refresh_def)
qed

text \<open>
  The loop returns when every identifier is registered, and then each entry of the registry
  has absorbed the answers for its own identifier, in their order.
\<close>

lemma reconcile_registry:
  assumes "ID ` set bps \<subseteq> dom reg"
  shows "\<exists>shown. reconcile bps reg =
           Return (\<lambda>k. map_option (absorb (filter (\<lambda>bp. ID bp = k) bps)) (reg k), shown)"
  using assms
proof (induction bps arbitrary: reg)
  case Nil
  have "(\<lambda>k. map_option (\<lambda>c. c) (reg k)) = reg" by (simp add: option.map_ident)
  then show ?case by (simp add: id_def)
next
  case (Cons bp bps)
  then obtain cached where c: "reg (ID bp) = Some cached" by auto
  let ?reg1 = "reg(ID bp \<mapsto> refresh cached bp)"
  have "ID ` set bps \<subseteq> dom ?reg1" using Cons.prems by auto
  from Cons.IH [OF this] obtain shown where
    r: "reconcile bps ?reg1 =
          Return (\<lambda>k. map_option (absorb (filter (\<lambda>bp. ID bp = k) bps)) (?reg1 k), shown)" ..
  have step: "reconcile (bp # bps) reg =
     (case reconcile bps ?reg1 of
        Panic p \<Rightarrow> Panic p
      | Return (reg', shown) \<Rightarrow>
          Return (reg', (if TotalHitCount cached \<noteq> TotalHitCount bp then bp else cached) # shown))"
    using c by (rule reconcile_Cons)
  have "(\<lambda>k. map_option (absorb (filter (\<lambda>bp. ID bp = k) bps)) (?reg1 k)) =
        (\<lambda>k. map_option (absorb (filter (\<lambda>b. ID b = k) (bp # bps))) (reg k))"
    using c by (auto simp: fun_eq_iff)
  with r have "reconcile bps ?reg1 =
      Return (\<lambda>k. map_option (absorb (filter (\<lambda>b. ID b = k) (bp # bps))) (reg k), shown)"
    by simp
  then show ?case by (simp only: step outcome.case prod.case) blast
qed

text \<open>The loop panics exactly when some identifier of the answer is not registered.\<close>

lemma reconcile_unregistered:
  assumes "bp \<in> set bps" and "ID bp \<notin> dom reg"
  shows "reconcile bps reg = Panic NilPointerDereference"
  using assms
proof (induction bps arbitrary: reg)
  case Nil
  then show ?case by simp
next
  case (Cons b bps)
  show ?case
  proof (cases "reg (ID b)")
    case None
    then show ?thesis by simp
  next
    case (Some cached)
    then have "ID b \<noteq> ID bp" using Cons.prems(2) by auto
    then have "bp \<in> set bps" using Cons.prems(1) by auto
    moreover have "ID bp \<notin> dom (reg(ID b \<mapsto> refresh cached b))"
      using Cons.prems(2) \<open>ID b \<noteq> ID bp\<close> by auto
    ultimately have "reconcile bps (reg(ID b \<mapsto> refresh cached b)) = Panic NilPointerDereference"
      by (rule Cons.IH)
    then show ?thesis by (simp only: reconcile_Cons [of reg b cached bps, OF Some] outcome.case)
  qed
qed

text \<open>
  The registry is keyed by identifier when each entry carries its own key, as the entries
  stored by \<^verbatim>\<open>delve.breakpoints[newbp.ID] = newbp\<close> do. The loop keeps this, and then
  formats a descriptor of the same identifier for each answer.
\<close>

lemma reconcile_shown_ids:
  assumes "reconcile bps reg = Return (reg', shown)"
    and "\<And>k c. reg k = Some c \<Longrightarrow> ID c = k"
  shows "map ID shown = map ID bps"
  using assms
proof (induction bps arbitrary: reg shown)
  case Nil
  then show ?case by simp
next
  case (Cons bp bps)
  from Cons.prems(1) obtain cached where c: "reg (ID bp) = Some cached"
    by (cases "reg (ID bp)") simp_all
  let ?reg1 = "reg(ID bp \<mapsto> refresh cached bp)"
  from Cons.prems(1) obtain rest where
    r: "reconcile bps ?reg1 = Return (reg', rest)" and
    s: "shown = (if TotalHitCount cached \<noteq> TotalHitCount bp then bp else cached) # rest"
    by (simp only: reconcile_Cons [of reg bp cached bps, OF c])
       (auto split: outcome.splits prod.splits)
  have keyed: "\<And>k c. ?reg1 k = Some c \<Longrightarrow> ID c = k"
    using Cons.prems(2) c by (auto split: if_splits)
  have "map ID rest = map ID bps" using r keyed by (rule Cons.IH)
  moreover have "ID cached = ID bp" using Cons.prems(2) c by blast
  ultimately show ?case using s by simp
qed

text \<open>
  Both places that store into the registry keep it keyed by identifier, given that the
  server answers the request for the breakpoint \<open>-1\<close> with a descriptor of that
  identifier; so does the loop.
\<close>

lemma delveStartClient_breakpoints_keyed:
  assumes "delveStartClient_breakpoints (Some panic, None) = Return (Inr reg)" and "ID panic = - 1"
    and "reg k = Some c"
  shows "ID c = k"
  using assms by (auto simp: delveStartClient_breakpoints_def split: if_splits)

lemma delveBreakpoint_breakpoints_keyed:
  assumes "delveBreakpoint_breakpoints reply reg = Return (Inr reg')"
    and "\<And>k c. reg k = Some c \<Longrightarrow> ID c = k" and "reg' k = Some c"
  shows "ID c = k"
  using assms
  by (auto simp: delveBreakpoint_breakpoints_def split: option.splits prod.splits if_splits)

lemma reconcile_keyed:
  assumes "reconcile bps reg = Return (reg', shown)"
    and "\<And>k c. reg k = Some c \<Longrightarrow> ID c = k" and "reg' k = Some c"
  shows "ID c = k"
proof -
  from assms(1) have "ID ` set bps \<subseteq> dom reg"
    using reconcile_unregistered [of _ bps reg] by fastforce
  from reconcile_registry [OF this] assms(1)
  have "reg' = (\<lambda>k. map_option (absorb (filter (\<lambda>bp. ID bp = k) bps)) (reg k))" by auto
  with assms(2,3) show ?thesis by auto
qed

text \<open>A pass that returned a registry returns it again when run on it.\<close>

lemma reconcile_again:
  assumes "reconcile bps reg = Return (reg', shown)"
  shows "\<exists>shown'. reconcile bps reg' = Return (reg', shown')"
proof -
  have dom: "ID ` set bps \<subseteq> dom reg"
    using assms reconcile_unregistered [of _ bps reg] by fastforce
  from reconcile_registry [OF this] assms
  have reg': "reg' = (\<lambda>k. map_option (absorb (filter (\<lambda>bp. ID bp = k) bps)) (reg k))" by auto
  then have "ID ` set bps \<subseteq> dom reg'" using dom by (auto simp: dom_def)
  from reconcile_registry [OF this] obtain shown' where
    "reconcile bps reg' =
       Return (\<lambda>k. map_option (absorb (filter (\<lambda>bp. ID bp = k) bps)) (reg' k), shown')" ..
  moreover have "(\<lambda>k. map_option (absorb (filter (\<lambda>bp. ID bp = k) bps)) (reg' k)) = reg'"
    by (simp add: reg' fun_eq_iff option.map_comp comp_def absorb_idem)
  ultimately show ?thesis by auto
qed

section \<open>Properties of the listing\<close>

lemma set_ByID_insert [simp]: "set (ByID_insert b cs) = insert b (set cs)"
  by (induction cs) auto

lemma set_insertionSort [simp]: "set (insertionSort front bs) = set front \<union> set bs"
  by (induction bs arbitrary: front) auto

lemma set_sort_ByID [simp]: "set (sort_ByID bs) = set bs"
  by (simp add: sort_ByID_def)

lemma length_ByID_insert [simp]: "length (ByID_insert b cs) = Suc (length cs)"
  by (induction cs) auto

lemma length_insertionSort [simp]:
  "length (insertionSort front bs) = length front + length bs"
  by (induction bs arbitrary: front) auto

lemma length_sort_ByID [simp]: "length (sort_ByID bs) = length bs"
  by (simp add: sort_ByID_def)

lemma ascending_ByID_insert:
  assumes "sorted_wrt (<) (map ID cs)" and "ID b \<notin> ID ` set cs"
  shows "sorted_wrt (<) (map ID (ByID_insert b cs))"
  using assms
proof (induction cs)
  case Nil
  then show ?case by simp
next
  case (Cons c cs)
  show ?case
  proof (cases "ByID_Less b c")
    case True
    then have "\<forall>x\<in>set cs. ID b < ID x" using Cons.prems(1) by (auto simp: ByID_Less_def)
    with True Cons.prems(1) show ?thesis by (simp add: ByID_Less_def)
  next
    case False
    then have "ID c < ID b" using Cons.prems(2) by (auto simp: ByID_Less_def)
    moreover have "sorted_wrt (<) (map ID (ByID_insert b cs))"
      using Cons by auto
    ultimately show ?thesis using False Cons.prems(1) by auto
  qed
qed

lemma distinct_ByID_insert:
  "distinct (map ID (ByID_insert b cs)) = (ID b \<notin> ID ` set cs \<and> distinct (map ID cs))"
  by (induction cs) auto

lemma ascending_insertionSort:
  assumes "sorted_wrt (<) (map ID front)" and "distinct (map ID (front @ bs))"
  shows "sorted_wrt (<) (map ID (insertionSort front bs))"
  using assms
proof (induction bs arbitrary: front)
  case Nil
  then show ?case by simp
next
  case (Cons b bs)
  have "sorted_wrt (<) (map ID (ByID_insert b front))"
    using Cons.prems by (intro ascending_ByID_insert) auto
  moreover have "distinct (map ID (ByID_insert b front @ bs))"
    using Cons.prems(2) by (simp add: distinct_ByID_insert)
  ultimately show ?case using Cons.IH by simp
qed

lemma ascending_sort_ByID:
  "distinct (map ID bs) \<Longrightarrow> sorted_wrt (<) (map ID (sort_ByID bs))"
  by (simp add: sort_ByID_def ascending_insertionSort)

text \<open>Elements of the same identifier keep their order.\<close>

lemma sort_ByID_keeps_equal_ids:
  "sort_ByID [Breakpoint_zero\<lparr>ID := 2, Name := ''first''\<rparr>, Breakpoint_zero\<lparr>ID := 1\<rparr>,
              Breakpoint_zero\<lparr>ID := 2, Name := ''second''\<rparr>] =
     [Breakpoint_zero\<lparr>ID := 1\<rparr>, Breakpoint_zero\<lparr>ID := 2, Name := ''first''\<rparr>,
      Breakpoint_zero\<lparr>ID := 2, Name := ''second''\<rparr>]"
  by (simp add: sort_ByID_def ByID_Less_def Breakpoint_zero_def)

section \<open>Properties of the commands\<close>

text \<open>Replacing the content of a buffer asks the editor nothing and cannot panic.\<close>

lemma printBuffer_replace:
  "printBuffer v b False data = Return (int (length data), SetBufferLines v b 0 data)"
  by (simp add: printBuffer_def)

text \<open>
  With every listed identifier registered, the part from \<open>ListBreakpoints\<close> on returns,
  and the registry of the session it returns is the one the loop produced.
\<close>

lemma show_breakpoints_registry:
  assumes "ID ` set listing \<subseteq> dom (breakpoints s)"
  shows "\<exists>r s' shown. show_breakpoints v s (listing, None) = Return (r, s') \<and>
           reconcile (sort_ByID listing) (breakpoints s) = Return (breakpoints s', shown)"
proof -
  have "ID ` set (sort_ByID listing) \<subseteq> dom (breakpoints s)" using assms by simp
  from reconcile_registry [OF this] obtain reg' shown where
    "reconcile (sort_ByID listing) (breakpoints s) = Return (reg', shown)" by blast
  then show ?thesis
    by (cases "SetBufferLines v (buffer (breaks s)) 0 (Split (concat (map Sprintf_bp shown)) newline)")
       (simp_all add: show_breakpoints_def printBuffer_replace)
qed

text \<open>A nil state makes both commands panic, in the test that was to catch it.\<close>

lemma nil_state_panics:
  "delveContinue v render s None listing = Panic NilPointerDereference"
  "delveNext v render s (None, None) listing = Panic NilPointerDereference"
  by (simp_all add: delveContinue_def delveNext_def)

section \<open>Results\<close>

subsection \<open>When the hit counts are overwritten\<close>

lemma filter_same_key:
  "distinct (map f xs) \<Longrightarrow> x \<in> set xs \<Longrightarrow> filter (\<lambda>y. f y = f x) xs = [x]"
proof (induction xs)
  case Nil
  then show ?case by simp
next
  case (Cons a xs)
  show ?case
  proof (cases "x = a")
    case True
    have "f a \<notin> f ` set xs" using Cons.prems(1) by simp
    then have "\<forall>y\<in>set xs. f y \<noteq> f a" by (metis image_eqI)
    then have "filter (\<lambda>y. f y = f a) xs = []" by (simp add: filter_empty_conv)
    with True show ?thesis by simp
  next
    case False
    then have "x \<in> set xs" using Cons.prems(2) by simp
    moreover from this have "f a \<noteq> f x" using Cons.prems(1) by auto
    ultimately show ?thesis using Cons by simp
  qed
qed

text \<open>
  Claim C1, as amended. The answer to \<open>ListBreakpoints\<close> lists every identifier once, and
  all of them are registered. Then the loop returns, and for each listed breakpoint the
  cached descriptor has its two hit-count fields replaced by the server's exactly when the
  cumulative counts differ and is left as it was otherwise; other entries are not touched.
  Afterwards the cached cumulative count is the server's, whether that is more or less than
  what was cached before.
\<close>

theorem reconcile_overwrites_iff_differs:
  assumes "distinct (map ID bps)" and "ID ` set bps \<subseteq> dom reg"
  shows "\<exists>reg' shown. reconcile bps reg = Return (reg', shown) \<and>
           (\<forall>bp\<in>set bps. \<forall>cached. reg (ID bp) = Some cached \<longrightarrow>
              reg' (ID bp) =
                Some (if TotalHitCount cached \<noteq> TotalHitCount bp
                      then cached\<lparr>TotalHitCount := TotalHitCount bp, HitCount := HitCount bp\<rparr>
                      else cached) \<and>
              map_option TotalHitCount (reg' (ID bp)) = Some (TotalHitCount bp)) \<and>
           (\<forall>k. k \<notin> ID ` set bps \<longrightarrow> reg' k = reg k)"
proof -
  define reg' where "reg' = (\<lambda>k. map_option (absorb (filter (\<lambda>bp. ID bp = k) bps)) (reg k))"
  from reconcile_registry [OF assms(2)] obtain shown where
    r: "reconcile bps reg = Return (reg', shown)" unfolding reg'_def ..
  have listed: "reg' (ID bp) = Some (refresh cached bp)"
    if "bp \<in> set bps" and "reg (ID bp) = Some cached" for bp cached
    using that filter_same_key [OF assms(1), of bp] by (simp add: reg'_def)
  have other: "reg' k = reg k" if "k \<notin> ID ` set bps" for k
  proof -
    have "filter (\<lambda>bp. ID bp = k) bps = []" using that by (auto simp: filter_empty_conv)
    then show ?thesis unfolding reg'_def by (cases "reg k") simp_all
  qed
  have "\<forall>bp\<in>set bps. \<forall>cached. reg (ID bp) = Some cached \<longrightarrow>
          reg' (ID bp) =
            Some (if TotalHitCount cached \<noteq> TotalHitCount bp
                  then cached\<lparr>TotalHitCount := TotalHitCount bp, HitCount := HitCount bp\<rparr>
                  else cached) \<and>
          map_option TotalHitCount (reg' (ID bp)) = Some (TotalHitCount bp)"
    by (simp add: listed refresh_def)
  with r other show ?thesis by blast
qed

theorem reconcile_overwrites_iff_differs_witness:
  "distinct (map ID [bp_panic, bp_main\<lparr>TotalHitCount := 1, HitCount := [''1'' \<mapsto> 1]\<rparr>]) \<and>
   ID ` set [bp_panic, bp_main\<lparr>TotalHitCount := 1, HitCount := [''1'' \<mapsto> 1]\<rparr>]
     \<subseteq> dom [- 1 \<mapsto> bp_panic, 1 \<mapsto> bp_main] \<and>
   (\<exists>reg' shown.
      reconcile [bp_panic, bp_main\<lparr>TotalHitCount := 1, HitCount := [''1'' \<mapsto> 1]\<rparr>]
        [- 1 \<mapsto> bp_panic, 1 \<mapsto> bp_main] = Return (reg', shown) \<and>
      reg' 1 = Some (bp_main\<lparr>TotalHitCount := 1, HitCount := [''1'' \<mapsto> 1]\<rparr>) \<and>
      reg' (- 1) = Some bp_panic)"
  using reconcile_overwrites_iff_differs
    [of "[bp_panic, bp_main\<lparr>TotalHitCount := 1, HitCount := [''1'' \<mapsto> 1]\<rparr>]"
        "[- 1 \<mapsto> bp_panic, 1 \<mapsto> bp_main]"]
  by (simp add: bp_main_def bp_panic_def)

text \<open>
  The claim as stated goes on: the cached cumulative count never decreases. It does when
  the server reports less than is cached (the counts start again from zero when the
  program is restarted): cached 5, reported 2, cached 2 afterwards.
\<close>

theorem cached_count_decreases:
  "reconcile [bp_main\<lparr>TotalHitCount := 2\<rparr>] [1 \<mapsto> bp_main\<lparr>TotalHitCount := 5\<rparr>] =
     Return ([1 \<mapsto> bp_main\<lparr>TotalHitCount := 2\<rparr>], [bp_main\<lparr>TotalHitCount := 2\<rparr>]) \<and>
   TotalHitCount (bp_main\<lparr>TotalHitCount := 2\<rparr>) < TotalHitCount (bp_main\<lparr>TotalHitCount := 5\<rparr>)"
  by (simp add: bp_main_def)

subsection \<open>Reconciling twice\<close>

text \<open>
  Claim C2: for every registry and every answer whose identifiers are all registered, the
  loop returns, and running it again with the same answer on the registry it produced
  returns that registry unchanged.
\<close>

theorem reconcile_idempotent:
  assumes "ID ` set bps \<subseteq> dom reg"
  shows "\<exists>reg' shown shown'.
           reconcile bps reg = Return (reg', shown) \<and> reconcile bps reg' = Return (reg', shown')"
proof -
  from reconcile_registry [OF assms] obtain reg' shown where
    first: "reconcile bps reg = Return (reg', shown)" by blast
  from reconcile_again [OF this] obtain shown' where
    "reconcile bps reg' = Return (reg', shown')" ..
  with first show ?thesis by blast
qed

theorem reconcile_idempotent_witness:
  "ID ` set [bp_main\<lparr>TotalHitCount := 3\<rparr>, bp_panic] \<subseteq> dom [- 1 \<mapsto> bp_panic, 1 \<mapsto> bp_main] \<and>
   (\<exists>reg' shown shown'.
      reconcile [bp_main\<lparr>TotalHitCount := 3\<rparr>, bp_panic] [- 1 \<mapsto> bp_panic, 1 \<mapsto> bp_main]
        = Return (reg', shown) \<and>
      reconcile [bp_main\<lparr>TotalHitCount := 3\<rparr>, bp_panic] reg' = Return (reg', shown'))"
  using reconcile_idempotent
    [of "[bp_main\<lparr>TotalHitCount := 3\<rparr>, bp_panic]" "[- 1 \<mapsto> bp_panic, 1 \<mapsto> bp_main]"]
  by (simp add: bp_main_def bp_panic_def)

text \<open>
  The same for the commands: after a stop event has been shown, showing the same answer of
  \<open>ListBreakpoints\<close> again leaves the registry of the session as it is.
\<close>

lemma show_breakpoints_twice:
  assumes "show_breakpoints v s (listing, None) = Return (r, s')"
  shows "\<exists>r' s''. show_breakpoints v' s' (listing, None) = Return (r', s'') \<and>
           breakpoints s'' = breakpoints s'"
proof -
  have reg: "ID ` set (sort_ByID listing) \<subseteq> dom (breakpoints s)"
  proof (rule ccontr)
    assume "\<not> ID ` set (sort_ByID listing) \<subseteq> dom (breakpoints s)"
    then obtain bp where "bp \<in> set (sort_ByID listing)" and "ID bp \<notin> dom (breakpoints s)"
      by blast
    then have "reconcile (sort_ByID listing) (breakpoints s) = Panic NilPointerDereference"
      by (rule reconcile_unregistered)
    with assms show False by (simp add: show_breakpoints_def)
  qed
  then have "ID ` set listing \<subseteq> dom (breakpoints s)" by simp
  from show_breakpoints_registry [OF this, of v] assms obtain shown where
    1: "reconcile (sort_ByID listing) (breakpoints s) = Return (breakpoints s', shown)" by auto
  from reconcile_again [OF 1] obtain shown' where
    2: "reconcile (sort_ByID listing) (breakpoints s') = Return (breakpoints s', shown')" by auto
  then show ?thesis
    by (cases "SetBufferLines v' (buffer (breaks s')) 0 (Split (concat (map Sprintf_bp shown')) newline)")
       (simp_all add: show_breakpoints_def printBuffer_replace)
qed

subsection \<open>The order of the listing\<close>

text \<open>
  Claim C3: the server gives every breakpoint its own identifier, so the answer of
  \<open>ListBreakpoints\<close> has distinct identifiers; all of them are registered, and the
  registry is keyed by identifier. Then there is a sequence \<open>shown\<close> of descriptors, one
  for each listed breakpoint and strictly ascending in the identifiers, such that
  \<open>delveContinue\<close> and \<open>delveNext\<close>, on a reply that is not an exit and with
  \<open>parseThread\<close> succeeding, replace the content of the breakpoint buffer by the entries
  of exactly this sequence, in this order, whatever the editor answers.
\<close>

theorem rendered_listing_strictly_ascending:
  assumes "distinct (map ID listing)" and "ID ` set listing \<subseteq> dom (breakpoints s)"
    and "\<forall>k c. breakpoints s k = Some c \<longrightarrow> ID c = k"
  shows "\<exists>reg' shown.
           sorted_wrt (<) (map ID shown) \<and>
           set (map ID shown) = ID ` set listing \<and>
           length shown = length listing \<and>
           (\<forall>v render st.
              \<not> Exited st \<longrightarrow> parseThread render (CurrentThread st) = Return None \<longrightarrow>
              delveContinue v render s (Some st) (listing, None) =
                (let data = Split (concat (map Sprintf_bp shown)) newline;
                     s' = s\<lparr>breakpoints := reg',
                            breaks := (breaks s)\<lparr>linecount := int (length data)\<rparr>\<rparr>
                 in case SetBufferLines v (buffer (breaks s)) 0 data of
                      Some err \<Rightarrow> Return (Some err, s')
                    | None \<Rightarrow>
                        Return (SetWindowCursor v (window (breaks s)) (int (length data), 0), s')) \<and>
              delveNext v render s (Some st, None) (listing, None) =
                delveContinue v render s (Some st) (listing, None))"
proof -
  have "ID ` set (sort_ByID listing) \<subseteq> dom (breakpoints s)" using assms(2) by simp
  from reconcile_registry [OF this] obtain reg' shown where
    r: "reconcile (sort_ByID listing) (breakpoints s) = Return (reg', shown)" by blast
  have "ID c = k" if "breakpoints s k = Some c" for k c
    using that assms(3) by blast
  with r have ids: "map ID shown = map ID (sort_ByID listing)" by (rule reconcile_shown_ids)
  have asc: "sorted_wrt (<) (map ID shown)"
    using assms(1) by (simp add: ids ascending_sort_ByID)
  have same: "set (map ID shown) = ID ` set listing"
    by (simp only: ids) simp
  have len: "length shown = length listing"
    using arg_cong [OF ids, of length] by simp
  have table: "show_breakpoints v s (listing, None) =
      (let data = Split (concat (map Sprintf_bp shown)) newline;
           s' = s\<lparr>breakpoints := reg', breaks := (breaks s)\<lparr>linecount := int (length data)\<rparr>\<rparr>
       in case SetBufferLines v (buffer (breaks s)) 0 data of
            Some err \<Rightarrow> Return (Some err, s')
          | None \<Rightarrow> Return (SetWindowCursor v (window (breaks s)) (int (length data), 0), s'))"
    for v
    by (simp add: show_breakpoints_def r printBuffer_replace Let_def split: option.splits)
  have cont: "delveContinue v render s (Some st) (listing, None) = show_breakpoints v s (listing, None)"
    if "\<not> Exited st" and "parseThread render (CurrentThread st) = Return None" for v render st
    using that by (simp add: delveContinue_def)
  have nxt: "delveNext v render s (Some st, None) (listing, None) = show_breakpoints v s (listing, None)"
    if "\<not> Exited st" and "parseThread render (CurrentThread st) = Return None" for v render st
    using that
    by (simp add: delveNext_def table Let_def split: option.splits)
  show ?thesis
    using asc same len by (intro exI [of _ reg'] exI [of _ shown]) (simp add: cont nxt table)
qed

theorem rendered_listing_strictly_ascending_witness:
  "distinct (map ID [bp_main\<lparr>ID := 3\<rparr>, bp_main, bp_panic]) \<and>
   map ID (sort_ByID [bp_main\<lparr>ID := 3\<rparr>, bp_main, bp_panic]) = [- 1, 1, 3] \<and>
   (\<exists>reg' shown.
      sorted_wrt (<) (map ID shown) \<and> set (map ID shown) = {- 1, 1, 3} \<and> length shown = 3 \<and>
      delveContinue (quiet_vim\<lparr>SetBufferLines := (\<lambda>b start data. Some (concat data))\<rparr>)
          quiet_render
          (session0\<lparr>breakpoints := [- 1 \<mapsto> bp_panic, 1 \<mapsto> bp_main, 3 \<mapsto> bp_main\<lparr>ID := 3\<rparr>]\<rparr>)
          (Some \<lparr>CurrentThread = None, Exited = False, ExitStatus = 0\<rparr>)
          ([bp_main\<lparr>ID := 3\<rparr>, bp_main, bp_panic], None) =
        Return (Some (concat (Split (concat (map Sprintf_bp shown)) newline)),
                session0\<lparr>breakpoints := reg',
                  breaks := (breaks session0)
                    \<lparr>linecount := int (length (Split (concat (map Sprintf_bp shown)) newline))\<rparr>\<rparr>))"
proof -
  let ?s = "session0\<lparr>breakpoints := [- 1 \<mapsto> bp_panic, 1 \<mapsto> bp_main, 3 \<mapsto> bp_main\<lparr>ID := 3\<rparr>]\<rparr>"
  let ?l = "[bp_main\<lparr>ID := 3\<rparr>, bp_main, bp_panic]"
  have d: "distinct (map ID ?l)" by (simp add: bp_main_def bp_panic_def)
  have r: "ID ` set ?l \<subseteq> dom (breakpoints ?s)" by (simp add: bp_main_def bp_panic_def)
  have k: "\<forall>k c. breakpoints ?s k = Some c \<longrightarrow> ID c = k"
    by (auto simp: bp_main_def bp_panic_def split: if_splits)
  from rendered_listing_strictly_ascending [OF d r k] obtain reg' shown where
    "sorted_wrt (<) (map ID shown)" "set (map ID shown) = ID ` set ?l" "length shown = length ?l"
    and c: "\<forall>v render st.
              \<not> Exited st \<longrightarrow> parseThread render (CurrentThread st) = Return None \<longrightarrow>
              delveContinue v render ?s (Some st) (?l, None) =
                (let data = Split (concat (map Sprintf_bp shown)) newline;
                     s' = ?s\<lparr>breakpoints := reg',
                            breaks := (breaks ?s)\<lparr>linecount := int (length data)\<rparr>\<rparr>
                 in case SetBufferLines v (buffer (breaks ?s)) 0 data of
                      Some err \<Rightarrow> Return (Some err, s')
                    | None \<Rightarrow>
                        Return (SetWindowCursor v (window (breaks ?s)) (int (length data), 0), s')) \<and>
              delveNext v render ?s (Some st, None) (?l, None) =
                delveContinue v render ?s (Some st) (?l, None)"
    by blast
  from c [rule_format, of "\<lparr>CurrentThread = None, Exited = False, ExitStatus = 0\<rparr>" quiet_render
      "quiet_vim\<lparr>SetBufferLines := (\<lambda>b start data. Some (concat data))\<rparr>"]
  have "delveContinue (quiet_vim\<lparr>SetBufferLines := (\<lambda>b start data. Some (concat data))\<rparr>)
          quiet_render ?s (Some \<lparr>CurrentThread = None, Exited = False, ExitStatus = 0\<rparr>) (?l, None) =
        Return (Some (concat (Split (concat (map Sprintf_bp shown)) newline)),
                session0\<lparr>breakpoints := reg',
                  breaks := (breaks session0)
                    \<lparr>linecount := int (length (Split (concat (map Sprintf_bp shown)) newline))\<rparr>\<rparr>)"
    by (simp add: parseThread_def quiet_vim_def Let_def)
  moreover have "map ID (sort_ByID ?l) = [- 1, 1, 3]"
    by (simp add: sort_ByID_def ByID_Less_def bp_main_def bp_panic_def)
  moreover have "ID ` set ?l = {- 1, 1, 3}" by (auto simp: bp_main_def bp_panic_def)
  ultimately show ?thesis
    using d \<open>sorted_wrt (<) (map ID shown)\<close> \<open>set (map ID shown) = ID ` set ?l\<close>
      \<open>length shown = length ?l\<close>
    by (intro conjI exI [of _ reg'] exI [of _ shown]) simp_all
qed

subsection \<open>An identifier that is not registered\<close>

text \<open>
  Claim C4: a stop event whose breakpoint data names an identifier that is not in the
  registry registers it and never fails. The code registers only the breakpoint for
  unrecovered panics, when the client starts, and nothing while a stop event is
  processed: there the lookup of an unregistered identifier gives a nil pointer, and
  \<open>delveContinue\<close> and \<open>delveNext\<close> panic on it. (A breakpoint set through
  \<open>DlvCommand\<close>, or by another client of the server, is listed but not registered.)
\<close>

theorem unregistered_breakpoint_panics:
  assumes "bp \<in> set listing" and "ID bp \<notin> dom (breakpoints s)"
    and "\<not> Exited st" and "parseThread render (CurrentThread st) = Return None"
  shows "delveContinue v render s (Some st) (listing, None) = Panic NilPointerDereference \<and>
         delveNext v render s (Some st, None) (listing, None) = Panic NilPointerDereference"
proof -
  have "bp \<in> set (sort_ByID listing)" using assms(1) by simp
  then have "reconcile (sort_ByID listing) (breakpoints s) = Panic NilPointerDereference"
    using assms(2) by (rule reconcile_unregistered)
  then have "show_breakpoints v s (listing, None) = Panic NilPointerDereference"
    by (simp add: show_breakpoints_def)
  with assms(3,4) show ?thesis by (simp add: delveContinue_def delveNext_def)
qed

theorem unregistered_breakpoint_panics_witness:
  "bp_main \<in> set [bp_main, bp_panic] \<and>
   ID bp_main \<notin> dom (breakpoints (session0\<lparr>breakpoints := [- 1 \<mapsto> bp_panic]\<rparr>)) \<and>
   \<not> Exited \<lparr>CurrentThread = None, Exited = False, ExitStatus = 0\<rparr> \<and>
   delveContinue quiet_vim quiet_render (session0\<lparr>breakpoints := [- 1 \<mapsto> bp_panic]\<rparr>)
     (Some \<lparr>CurrentThread = None, Exited = False, ExitStatus = 0\<rparr>) ([bp_main, bp_panic], None)
     = Panic NilPointerDereference \<and>
   delveNext quiet_vim quiet_render (session0\<lparr>breakpoints := [- 1 \<mapsto> bp_panic]\<rparr>)
     (Some \<lparr>CurrentThread = None, Exited = False, ExitStatus = 0\<rparr>, None) ([bp_main, bp_panic], None)
     = Panic NilPointerDereference"
  using unregistered_breakpoint_panics
    [of bp_main "[bp_main, bp_panic]" "session0\<lparr>breakpoints := [- 1 \<mapsto> bp_panic]\<rparr>"
        "\<lparr>CurrentThread = None, Exited = False, ExitStatus = 0\<rparr>" quiet_render quiet_vim]
  by (simp add: bp_main_def bp_panic_def session0_def parseThread_def)

subsection \<open>The name derived from a function symbol\<close>

lemma cut_before_separator:
  "sep \<notin> set pkg \<Longrightarrow> cut sep (pkg @ sep # s) = (pkg, fst (cut sep s) # snd (cut sep s))"
  by (induction pkg) (auto split: prod.splits)

lemma cut_without_separator: "sep \<notin> set s \<Longrightarrow> cut sep s = (s, [])"
  by (induction s) auto

lemma cut_concat: "fst (cut sep s) @ concat (snd (cut sep s)) = filter (\<lambda>x. x \<noteq> sep) s"
  by (induction s) (auto split: prod.splits)

lemma derive_name_first_dot:
  assumes "CHR ''.'' \<notin> set pkg" and "c \<noteq> CHR ''.''"
  shows "derive_name (pkg @ CHR ''.'' # c # rest) =
           Return (pkg @ ToUpper [c] @ filter (\<lambda>x. x \<noteq> CHR ''.'') rest)"
proof -
  obtain seg segs where r: "cut CHR ''.'' rest = (seg, segs)" by (cases "cut CHR ''.'' rest")
  then have "seg @ concat segs = filter (\<lambda>x. x \<noteq> CHR ''.'') rest"
    using cut_concat [of "CHR ''.''" rest] by simp
  moreover have "Split (pkg @ CHR ''.'' # c # rest) CHR ''.'' = pkg # (c # seg) # segs"
    using assms r by (simp add: Split_def cut_before_separator)
  ultimately show ?thesis by (simp add: derive_name_def Join_def)
qed

text \<open>Outside these symbols the derivation panics: without a dot, and with nothing or a
  second dot right after the first.\<close>

lemma derive_name_without_dot:
  "CHR ''.'' \<notin> set symbol \<Longrightarrow> derive_name symbol = Panic IndexOutOfRange"
  by (simp add: derive_name_def Split_def cut_without_separator)

lemma derive_name_empty_segment:
  assumes "CHR ''.'' \<notin> set pkg"
  shows "derive_name (pkg @ [CHR ''.'']) = Panic SliceBoundsOutOfRange"
    and "derive_name (pkg @ CHR ''.'' # CHR ''.'' # rest) = Panic SliceBoundsOutOfRange"
  using assms by (simp_all add: derive_name_def Split_def cut_before_separator split: prod.splits)

text \<open>
  On an ASCII byte \<open>ToUpper\<close> gives one byte: the capital for a letter \<open>a\<close> to \<open>z\<close>,
  the byte itself otherwise. On a byte that begins a longer UTF-8 sequence it gives the
  replacement character, which then stands in the name in front of the rest of the
  sequence.
\<close>

lemma ToUpper_ascii:
  "(of_char c :: nat) < 128 \<Longrightarrow>
   ToUpper [c] = [case upper_case c of Some u \<Rightarrow> u | None \<Rightarrow> c]"
  by (simp add: ToUpper_def split: option.splits)

lemma derive_name_cut_sequence:
  "derive_name [CHR ''m'', CHR ''a'', CHR ''i'', CHR ''n'', CHR ''.'', CHR 0xC3, CHR 0xA9,
                CHR ''t'', CHR ''a'', CHR ''t''] =
     Return [CHR ''m'', CHR ''a'', CHR ''i'', CHR ''n'', CHR 0xEF, CHR 0xBF, CHR 0xBD, CHR 0xA9,
             CHR ''t'', CHR ''a'', CHR ''t'']"
  by (simp add: derive_name_def Split_def Join_def ToUpper_def upper_case_def RuneError_def)

text \<open>
  Claim C5, as amended. For a symbol in which the first dot is followed by an ASCII
  character other than a dot (\<open>pkg\<close> holds no dot), the derived name is the symbol without
  its dots and with that one character in upper case: the capital if it is a letter \<open>a\<close>
  to \<open>z\<close>, the character itself otherwise. What follows later dots is taken as it is.
  Every such symbol gets a name, in \<open>delveBreakpoint\<close> and in \<open>parseArgs\<close>.
\<close>

theorem name_from_symbol:
  assumes "CHR ''.'' \<notin> set pkg" and "c \<noteq> CHR ''.''" and "(of_char c :: nat) < 128"
  shows "delveBreakpoint_bpName [pkg @ CHR ''.'' # c # rest] =
           Return (Inr (pkg @ (case upper_case c of Some u \<Rightarrow> u | None \<Rightarrow> c) #
                          filter (\<lambda>x. x \<noteq> CHR ''.'') rest)) \<and>
         parseArgs cursor file [pkg @ CHR ''.'' # c # rest] =
           Return (Some (Breakpoint_zero
                     \<lparr>Name := pkg @ (case upper_case c of Some u \<Rightarrow> u | None \<Rightarrow> c) #
                               filter (\<lambda>x. x \<noteq> CHR ''.'') rest,
                      FunctionName := pkg @ CHR ''.'' # c # rest\<rparr>), None)"
  using derive_name_first_dot [OF assms(1,2), of rest] ToUpper_ascii [OF assms(3)]
  by (simp add: delveBreakpoint_bpName_def parseArgs_def)

theorem name_from_symbol_witness:
  "CHR ''.'' \<notin> set ''main'' \<and> CHR ''m'' \<noteq> CHR ''.'' \<and> (of_char CHR ''m'' :: nat) < 128 \<and>
   delveBreakpoint_bpName [''main.main''] = Return (Inr ''mainMain'') \<and>
   parseArgs ((19, 0), None) ''astdump.go'' [''main.main''] =
     Return (Some (Breakpoint_zero\<lparr>Name := ''mainMain'', FunctionName := ''main.main''\<rparr>), None) \<and>
   delveBreakpoint_bpName [''main.(*T).run''] = Return (Inr ''main(*T)run'')"
  using name_from_symbol [of "''main''" "CHR ''m''" "''ain''" "((19, 0), None)" "''astdump.go''"]
    name_from_symbol [of "''main''" "CHR ''(''" "''*T).run''" "((19, 0), None)" "''astdump.go''"]
  by (simp add: upper_case_def)

text \<open>
  The claim as stated has the first letter after each dot in upper case. The function
  \<open>run\<close> of the package \<open>github.com/zchee/pkg\<close> and the method \<open>dist\<close> of the type
  \<open>point\<close> in package \<open>main\<close> are symbols with two dots; their names keep the letter
  after the second dot in lower case.
\<close>

theorem name_keeps_later_segments:
  "delveBreakpoint_bpName [''github.com/zchee/pkg.run''] = Return (Inr ''githubCom/zchee/pkgrun'') \<and>
   delveBreakpoint_bpName [''github.com/zchee/pkg.run''] \<noteq> Return (Inr ''githubCom/zchee/pkgRun'') \<and>
   delveBreakpoint_bpName [''main.point.dist''] = Return (Inr ''mainPointdist'') \<and>
   delveBreakpoint_bpName [''main.point.dist''] \<noteq> Return (Inr ''mainPointDist'')"
  by (simp add: delveBreakpoint_bpName_def derive_name_def Split_def Join_def ToUpper_def
      upper_case_def RuneError_def)

subsection \<open>A reply that reports the exit of the program\<close>

text \<open>
  Claim C6, as amended. When the reply to continue or to next says that the program has
  exited, the command shows the message \<open>Process <pid> has exited with status <status>\<close>
  and returns what showing it returned; it does not panic and leaves the session as it
  was. No state records the exit, and the commands refuse nothing on its account: a
  later continue or next is sent to the server like any other.
\<close>

theorem exited_reply_is_shown:
  assumes "Exited st"
  shows "delveContinue v render s (Some st) listing =
           Return (Echomsg v (Sprintf_exited (procPid s) (ExitStatus st)), s) \<and>
         delveNext v render s (Some st, None) listing =
           Return (Echomsg v (Sprintf_exited (procPid s) (ExitStatus st)), s)"
  using assms by (simp add: delveContinue_def delveNext_def)

theorem exited_reply_is_shown_witness:
  "Exited \<lparr>CurrentThread = None, Exited = True, ExitStatus = 2\<rparr> \<and>
   Sprintf_exited (procPid session0) 2 = ''Process 4711 has exited with status 2'' \<and>
   delveContinue (quiet_vim\<lparr>Echomsg := (\<lambda>msg. Some (''E: '' @ msg))\<rparr>) quiet_render session0
     (Some \<lparr>CurrentThread = None, Exited = True, ExitStatus = 2\<rparr>) ([bp_main], None) =
     Return (Some ''E: Process 4711 has exited with status 2'', session0) \<and>
   delveNext (quiet_vim\<lparr>Echomsg := (\<lambda>msg. Some (''E: '' @ msg))\<rparr>) quiet_render session0
     (Some \<lparr>CurrentThread = None, Exited = True, ExitStatus = 2\<rparr>, None) ([bp_main], None) =
     Return (Some ''E: Process 4711 has exited with status 2'', session0)"
  using exited_reply_is_shown
    [of "\<lparr>CurrentThread = None, Exited = True, ExitStatus = 2\<rparr>"
        "quiet_vim\<lparr>Echomsg := (\<lambda>msg. Some (''E: '' @ msg))\<rparr>" quiet_render session0
        "([bp_main], None)"]
  by (simp add: quiet_vim_def session0_def Sprintf_exited_def showInt_def showNat.simps digit_def)

text \<open>
  The claim as stated has every continue after the exit yield an error. With an editor
  that shows the message, \<open>delveContinue\<close> returns nil on a reply that reports the exit,
  the second time as the first.
\<close>

theorem exited_reply_returns_nil:
  "delveContinue quiet_vim quiet_render session0
     (Some \<lparr>CurrentThread = None, Exited = True, ExitStatus = 0\<rparr>) ([], None) =
     Return (None, session0) \<and>
   delveNext quiet_vim quiet_render session0
     (Some \<lparr>CurrentThread = None, Exited = True, ExitStatus = 0\<rparr>, None) ([], None) =
     Return (None, session0)"
  by (simp add: delveContinue_def delveNext_def quiet_vim_def)

subsection \<open>Killing a server that does not run\<close>

text \<open>
  Claim C7, as amended. Without a server command (\<open>DlvStartServer\<close> has not run)
  \<open>delveKill\<close> does nothing and returns nil. With a started server it returns what
  \<open>Process.Kill\<close> returns, nil or the error of the operating system, and does not panic.
  The command stays in \<open>server\<close>, so a second kill calls \<open>Process.Kill\<close> on the same
  process again and returns its answer in the same way.
\<close>

theorem delveKill_reports:
  "delveKill Kill None os = Return (None, os) \<and>
   (\<forall>cmd p. Process cmd = Some p \<longrightarrow>
      delveKill Kill (Some cmd) os = Return (Kill p os) \<and>
      delveKill Kill (Some cmd) (snd (Kill p os)) = Return (Kill p (snd (Kill p os))))"
  by (auto simp: delveKill_def split: prod.splits option.splits)

theorem delveKill_reports_witness:
  "delveKill example_Kill None {} = Return (None, {}) \<and>
   Process \<lparr>Process = Some 77\<rparr> = Some 77 \<and>
   delveKill example_Kill (Some \<lparr>Process = Some 77\<rparr>) {77} = Return (None, {}) \<and>
   delveKill example_Kill (Some \<lparr>Process = Some 77\<rparr>) {} =
     Return (Some ''os: process already finished'', {})"
  using delveKill_reports [of example_Kill "{77}"]
    delveKill_reports [of example_Kill "{}"]
  by (simp add: example_Kill_def)

text \<open>
  The claim as stated has a kill without a running process return an error. For a server
  that was never started there is none.
\<close>

theorem delveKill_never_started:
  "delveKill example_Kill None {} = Return (None, {})"
  by (simp add: delveKill_def)

text \<open>
  \<open>delveDetach\<close> kills the server on its way out and drops the result of that; only a
  panic of the kill comes through.
\<close>

lemma delveDetach_kills:
  assumes "Process cmd = Some p"
  shows "delveDetach Kill (Some cmd) os s wait detach =
           Return (if procPid s = 0 then None
                   else if has_buffers s \<and> wait \<noteq> None then wait else detach,
                   snd (Kill p os))"
  using assms by (auto simp: delveDetach_def delveKill_def split: prod.splits option.splits)

subsection \<open>Where a write starts and what it returns\<close>

text \<open>
  Claim C10, as amended. Where the editor answers the two queries of \<open>printBuffer\<close>
  for a buffer that holds \<open>lines\<close>, the write starts at the line count when appending,
  at 0 when the buffer is a single empty line or when replacing, and the count returned
  is that start plus the number of lines written, whatever the write itself returns.
  Where the line count, or the content of a buffer of one line, cannot be read, nothing is
  written and 0 is returned beside the error.
\<close>

theorem printBuffer_start_and_count:
  "(BufferLineCount v b = (int (length lines), None) \<longrightarrow> BufferLines v b = (lines, None) \<longrightarrow>
      printBuffer v b appnd data =
        Return (start_position appnd lines + int (length data),
                SetBufferLines v b (start_position appnd lines) data)) \<and>
   (BufferLineCount v b = (n, Some err) \<longrightarrow>
      printBuffer v b True data = Return (0, Some err)) \<and>
   (BufferLineCount v b = (1, None) \<longrightarrow> BufferLines v b = (buf, Some err) \<longrightarrow>
      printBuffer v b True data = Return (0, Some err))"
proof (intro conjI impI)
  assume count: "BufferLineCount v b = (int (length lines), None)"
    and content: "BufferLines v b = (lines, None)"
  show "printBuffer v b appnd data =
          Return (start_position appnd lines + int (length data),
                  SetBufferLines v b (start_position appnd lines) data)"
  proof (cases "appnd \<and> length lines = 1")
    case True
    then obtain l where "lines = [l]" by (cases lines) auto
    with True count content show ?thesis by (simp add: printBuffer_def start_position_def)
  next
    case False
    then have "appnd \<Longrightarrow> lines \<noteq> [[]]" by auto
    with False count content show ?thesis by (auto simp: printBuffer_def start_position_def)
  qed
next
  assume "BufferLineCount v b = (n, Some err)"
  then show "printBuffer v b True data = Return (0, Some err)" by (simp add: printBuffer_def)
next
  assume "BufferLineCount v b = (1, None)" and "BufferLines v b = (buf, Some err)"
  then show "printBuffer v b True data = Return (0, Some err)" by (simp add: printBuffer_def)
qed

theorem printBuffer_start_and_count_witness:
  "BufferLineCount (quiet_vim\<lparr>BufferLineCount := (\<lambda>b. (2, None)),
       BufferLines := (\<lambda>b. ([''Breakpoint 1'', ''PC=0x2053''], None))\<rparr>) 4
     = (int (length [''Breakpoint 1'', ''PC=0x2053'']), None) \<and>
   printBuffer (quiet_vim\<lparr>BufferLineCount := (\<lambda>b. (2, None)),
       BufferLines := (\<lambda>b. ([''Breakpoint 1'', ''PC=0x2053''], None))\<rparr>) 4 True
       [''Breakpoint 2'', ''PC=0x20eb''] = Return (4, None) \<and>
   printBuffer (quiet_vim\<lparr>BufferLineCount := (\<lambda>b. (2, None)),
       BufferLines := (\<lambda>b. ([''Breakpoint 1'', ''PC=0x2053''], None))\<rparr>) 4 False
       [''Breakpoint 2'', ''PC=0x20eb''] = Return (2, None) \<and>
   printBuffer quiet_vim 4 True [''Breakpoint 2'', ''PC=0x20eb''] = Return (2, None) \<and>
   printBuffer (quiet_vim\<lparr>BufferLineCount := (\<lambda>b. (0, Some ''EOF''))\<rparr>) 4 True
       [''Breakpoint 2'', ''PC=0x20eb''] = Return (0, Some ''EOF'') \<and>
   printBuffer (quiet_vim\<lparr>BufferLines := (\<lambda>b. ([], Some ''EOF''))\<rparr>) 4 True
       [''Breakpoint 2'', ''PC=0x20eb''] = Return (0, Some ''EOF'')"
  using printBuffer_start_and_count
    [of "quiet_vim\<lparr>BufferLineCount := (\<lambda>b. (2, None)),
           BufferLines := (\<lambda>b. ([''Breakpoint 1'', ''PC=0x2053''], None))\<rparr>" 4
        "[''Breakpoint 1'', ''PC=0x2053'']" True "[''Breakpoint 2'', ''PC=0x20eb'']"]
    printBuffer_start_and_count
    [of "quiet_vim\<lparr>BufferLineCount := (\<lambda>b. (2, None)),
           BufferLines := (\<lambda>b. ([''Breakpoint 1'', ''PC=0x2053''], None))\<rparr>" 4
        "[''Breakpoint 1'', ''PC=0x2053'']" False "[''Breakpoint 2'', ''PC=0x20eb'']"]
    printBuffer_start_and_count
    [of quiet_vim 4 "[[]]" True "[''Breakpoint 2'', ''PC=0x20eb'']"]
    printBuffer_start_and_count
    [of "quiet_vim\<lparr>BufferLineCount := (\<lambda>b. (0, Some ''EOF''))\<rparr>" 4 _ _
        "[''Breakpoint 2'', ''PC=0x20eb'']" 0 "''EOF''"]
    printBuffer_start_and_count
    [of "quiet_vim\<lparr>BufferLines := (\<lambda>b. ([], Some ''EOF''))\<rparr>" 4 _ _
        "[''Breakpoint 2'', ''PC=0x20eb'']" _ "''EOF''" "[]"]
  by (simp add: quiet_vim_def start_position_def)

text \<open>
  The claim as stated speaks of every call. When the line count cannot be read, nothing
  is written and the count returned is 0 beside the error: here the buffer holds two
  lines and one is to be appended.
\<close>

theorem printBuffer_count_unread:
  "printBuffer (quiet_vim\<lparr>BufferLineCount := (\<lambda>b. (0, Some ''msgpack: timeout'')),
       BufferLines := (\<lambda>b. ([''Breakpoint 1'', ''PC=0x2053''], None))\<rparr>) 4 True
       [''Breakpoint 2''] = Return (0, Some ''msgpack: timeout'') \<and>
   start_position True [''Breakpoint 1'', ''PC=0x2053''] + int (length [''Breakpoint 2'']) = 3"
  by (simp add: printBuffer_def quiet_vim_def start_position_def)

subsection \<open>Failures of the function-list call\<close>

text \<open>
  Claim C9: every failure of a call to the server reaches the caller as an error, and in
  particular a failing function-list call returns an error rather than an empty result.
  \<open>delveFunctionList\<close> does the opposite: whatever the error, it returns the empty list
  and nil, while \<open>FunctionsCompletion\<close> hands the error on.
\<close>

theorem delveFunctionList_swallows_error:
  "delveFunctionList (funcs, Some err) = ([], None) \<and>
   FunctionsCompletion (funcs, Some err) = ([], Some err)"
  by (simp add: delveFunctionList_def FunctionsCompletion_def)

end
